theory Spec2Isabelle
  imports Main
begin

section \<open>Selective-build operators: data model\<close>

text \<open>
  A shallow embedding of \<^verbatim>\<open>tools/codegen/selective_build/operator.py\<close>.

  The values a parsed YAML document can hold. A \<^verbatim>\<open>Dict[str, object]\<close> whose
  iteration order is never observed (the documents read by \<^verbatim>\<open>from_yaml\<close> and built by
  \<^verbatim>\<open>to_dict\<close>) is a map from keys to values; Python compares two such dicts by
  their key-value pairs, which is equality of maps.
\<close>

datatype yaml =
    YStr string
  | YBool bool
  | YInt int
  | YNull
  | YList "yaml list"
  | YDict "string \<Rightarrow> yaml option"

type_synonym document = "string \<Rightarrow> yaml option"

text \<open>
  The exceptions the module can raise: \<^verbatim>\<open>data['name']\<close> on a missing key is a
  KeyError (carrying the key), a failed \<^verbatim>\<open>assert isinstance(...)\<close> is an AssertionError,
  subscripting an object that is not a dict with a string is a TypeError, and
  \<^verbatim>\<open>combine_operators\<close> raises a plain \<^verbatim>\<open>Exception\<close> with a message.
\<close>

datatype error =
    KeyError string
  | AssertionError
  | TypeError
  | Exception string

text \<open>
  The two dataclasses. The field \<^verbatim>\<open>name\<close> of \<^verbatim>\<open>SelectiveBuildOperator\<close> is
  \<open>op_name\<close> here, apart from the field \<^verbatim>\<open>name\<close> of \<^verbatim>\<open>PyTorchModelMetadata\<close>.
\<close>

record PyTorchModelMetadata =
  name :: string
  version :: "string option"

record SelectiveBuildOperator =
  op_name :: string
  is_root_operator :: bool
  is_used_for_training :: bool
  include_all_overloads :: bool
  models :: "PyTorchModelMetadata list option"

text \<open>
  A dict whose iteration order is observed (\<^verbatim>\<open>mdict.values()\<close>, \<^verbatim>\<open>lhs.items()\<close>) is an
  association list in insertion order. Its keys are pairwise distinct, as in any Python
  dict. \<^verbatim>\<open>d[k] = v\<close> overwrites the value of a key that is present, leaving the key at
  the position of its first insertion, and appends a key that is new.
\<close>

type_synonym ('k, 'v) pydict = "('k \<times> 'v) list"

fun dict_set :: "('k, 'v) pydict \<Rightarrow> 'k \<Rightarrow> 'v \<Rightarrow> ('k, 'v) pydict" where
  "dict_set [] k v = [(k, v)]"
| "dict_set ((k', v') # ps) k v =
     (if k' = k then (k', v) # ps else (k', v') # dict_set ps k v)"

definition dict_get :: "('k, 'v) pydict \<Rightarrow> 'k \<Rightarrow> 'v option" where
  "dict_get d k = map_of d k"

definition dict_values :: "('k, 'v) pydict \<Rightarrow> 'v list" where
  "dict_values d = map snd d"

definition dict_keys :: "('k, 'v) pydict \<Rightarrow> 'k list" where
  "dict_keys d = map fst d"

section \<open>PyTorchModelMetadata\<close>

text \<open>\<^verbatim>\<open>PyTorchModelMetadata.from_yaml\<close>, on a dict.\<close>

definition from_yaml :: "document \<Rightarrow> error + PyTorchModelMetadata" where
  "from_yaml data =
     (case data ''name'' of
        None \<Rightarrow> Inl (KeyError ''name'')
      | Some (YStr nm) \<Rightarrow>
          (case data ''version'' of
             None \<Rightarrow> Inr \<lparr>name = nm, version = None\<rparr>
           | Some (YStr ver) \<Rightarrow> Inr \<lparr>name = nm, version = Some ver\<rparr>
           | Some _ \<Rightarrow> Inl AssertionError)
      | Some _ \<Rightarrow> Inl AssertionError)"

text \<open>
  The same call on an arbitrary element of a \<^verbatim>\<open>models\<close> list: an element that is
  not a dict cannot be subscripted with \<^verbatim>\<open>'name'\<close>.
\<close>

fun from_yaml_obj :: "yaml \<Rightarrow> error + PyTorchModelMetadata" where
  "from_yaml_obj (YDict data) = from_yaml data"
| "from_yaml_obj _ = Inl TypeError"

text \<open>\<^verbatim>\<open>PyTorchModelMetadata.__str__\<close>, the canonical string.\<close>

definition str :: "PyTorchModelMetadata \<Rightarrow> string" where
  "str m = (case version m of None \<Rightarrow> name m | Some ver \<Rightarrow> name m @ ''@'' @ ver)"

text \<open>\<^verbatim>\<open>PyTorchModelMetadata.to_dict\<close>.\<close>

definition to_dict :: "PyTorchModelMetadata \<Rightarrow> document" where
  "to_dict m =
     (case version m of
        None \<Rightarrow> [''name'' \<mapsto> YStr (name m)]
      | Some ver \<Rightarrow> [''name'' \<mapsto> YStr (name m), ''version'' \<mapsto> YStr ver])"

section \<open>SelectiveBuildOperator\<close>

text \<open>
  \<^verbatim>\<open>op_info.get(key, True)\<close> followed by \<^verbatim>\<open>assert isinstance(..., bool)\<close>.
\<close>

definition get_flag :: "document \<Rightarrow> string \<Rightarrow> error + bool" where
  "get_flag op_info key =
     (case op_info key of
        None \<Rightarrow> Inr True
      | Some (YBool b) \<Rightarrow> Inr b
      | Some _ \<Rightarrow> Inl AssertionError)"

text \<open>
  \<^verbatim>\<open>list(map(lambda x: PyTorchModelMetadata.from_yaml(x), models_list))\<close>: the first
  element that fails to parse raises.
\<close>

fun from_yaml_list :: "yaml list \<Rightarrow> error + PyTorchModelMetadata list" where
  "from_yaml_list [] = Inr []"
| "from_yaml_list (x # xs) =
     (case from_yaml_obj x of
        Inl e \<Rightarrow> Inl e
      | Inr m \<Rightarrow>
          (case from_yaml_list xs of
             Inl e \<Rightarrow> Inl e
           | Inr ms \<Rightarrow> Inr (m # ms)))"

definition get_models :: "document \<Rightarrow> error + PyTorchModelMetadata list option" where
  "get_models op_info =
     (case op_info ''models'' of
        None \<Rightarrow> Inr None
      | Some (YList models_list) \<Rightarrow>
          (case from_yaml_list models_list of
             Inl e \<Rightarrow> Inl e
           | Inr ms \<Rightarrow> Inr (Some ms))
      | Some _ \<Rightarrow> Inl AssertionError)"

text \<open>\<^verbatim>\<open>SelectiveBuildOperator.from_yaml_dict\<close>; the checks run in the source's order.\<close>

definition from_yaml_dict :: "string \<Rightarrow> document \<Rightarrow> error + SelectiveBuildOperator" where
  "from_yaml_dict nm op_info =
     (case get_flag op_info ''is_root_operator'' of
        Inl e \<Rightarrow> Inl e
      | Inr root \<Rightarrow>
     (case get_flag op_info ''is_used_for_training'' of
        Inl e \<Rightarrow> Inl e
      | Inr training \<Rightarrow>
     (case get_flag op_info ''include_all_overloads'' of
        Inl e \<Rightarrow> Inl e
      | Inr overloads \<Rightarrow>
     (case get_models op_info of
        Inl e \<Rightarrow> Inl e
      | Inr ms \<Rightarrow>
          Inr \<lparr>op_name = nm, is_root_operator = root, is_used_for_training = training,
               include_all_overloads = overloads, models = ms\<rparr>))))"

definition from_legacy_operator_name_without_overload :: "string \<Rightarrow> SelectiveBuildOperator" where
  "from_legacy_operator_name_without_overload nm =
     \<lparr>op_name = nm, is_root_operator = True, is_used_for_training = True,
      include_all_overloads = True, models = None\<rparr>"

text \<open>\<^verbatim>\<open>SelectiveBuildOperator.to_dict\<close>.\<close>

definition op_to_dict :: "SelectiveBuildOperator \<Rightarrow> document" where
  "op_to_dict self =
     (let ret = [''is_root_operator'' \<mapsto> YBool (is_root_operator self),
                 ''is_used_for_training'' \<mapsto> YBool (is_used_for_training self),
                 ''include_all_overloads'' \<mapsto> YBool (include_all_overloads self)]
      in case models self of
           None \<Rightarrow> ret
         | Some ms \<Rightarrow> ret(''models'' \<mapsto> YList (map (\<lambda>m. YDict (to_dict m)) ms)))"

section \<open>Merging\<close>

text \<open>\<^verbatim>\<open>lhs or []\<close>: \<^verbatim>\<open>None\<close> and the empty list are both falsy.\<close>

definition or_empty :: "'a list option \<Rightarrow> 'a list" where
  "or_empty l = (case l of None \<Rightarrow> [] | Some xs \<Rightarrow> if xs = [] then [] else xs)"

text \<open>The loop of \<^verbatim>\<open>merge_model_lists\<close>: \<^verbatim>\<open>mdict[str(model)] = model\<close> for each model.\<close>

fun fill_mdict ::
  "PyTorchModelMetadata list \<Rightarrow> (string, PyTorchModelMetadata) pydict
     \<Rightarrow> (string, PyTorchModelMetadata) pydict" where
  "fill_mdict [] mdict = mdict"
| "fill_mdict (model # rest) mdict = fill_mdict rest (dict_set mdict (str model) model)"

definition merge_model_lists ::
  "PyTorchModelMetadata list option \<Rightarrow> PyTorchModelMetadata list option
     \<Rightarrow> PyTorchModelMetadata list option" where
  "merge_model_lists lhs rhs =
     (let mdict = fill_mdict (or_empty lhs @ or_empty rhs) []
      in if length mdict > 0 then Some (dict_values mdict) else None)"

text \<open>\<^verbatim>\<open>combine_operators\<close>.\<close>

definition combine_operators ::
  "SelectiveBuildOperator \<Rightarrow> SelectiveBuildOperator \<Rightarrow> error + SelectiveBuildOperator" where
  "combine_operators lhs rhs =
     (if op_name lhs \<noteq> op_name rhs then
        Inl (Exception (''Expected both arguments to have the same name, but got ''
                        @ [CHR 0x27] @ op_name lhs @ [CHR 0x27] @ '' and ''
                        @ [CHR 0x27] @ op_name rhs @ [CHR 0x27] @ '' instead''))
      else
        Inr \<lparr>op_name = op_name lhs,
             is_root_operator = is_root_operator lhs \<or> is_root_operator rhs,
             is_used_for_training = is_used_for_training lhs \<or> is_used_for_training rhs,
             include_all_overloads = include_all_overloads lhs \<or> include_all_overloads rhs,
             models = merge_model_lists (models lhs) (models rhs)\<rparr>)"

text \<open>
  The loop of \<^verbatim>\<open>merge_operator_dicts\<close> over the items of \<^verbatim>\<open>lhs\<close> followed by those
  of \<^verbatim>\<open>rhs\<close>; an exception of \<^verbatim>\<open>combine_operators\<close> ends it.
\<close>

type_synonym registry = "(string, SelectiveBuildOperator) pydict"

fun merge_loop ::
  "(string \<times> SelectiveBuildOperator) list \<Rightarrow> registry \<Rightarrow> error + registry" where
  "merge_loop [] operators = Inr operators"
| "merge_loop ((nm, op) # rest) operators =
     (case dict_get operators nm of
        None \<Rightarrow> merge_loop rest (dict_set operators nm op)
      | Some existing \<Rightarrow>
          (case combine_operators existing op of
             Inl e \<Rightarrow> Inl e
           | Inr new_op \<Rightarrow> merge_loop rest (dict_set operators nm new_op)))"

definition merge_operator_dicts :: "registry \<Rightarrow> registry \<Rightarrow> error + registry" where
  "merge_operator_dicts lhs rhs = merge_loop (lhs @ rhs) []"

section \<open>Reference definitions for the properties\<close>

text \<open>
  Deduplication by canonical string as the specification words it: the entry met first
  is kept and every later entry with the same canonical string is dropped.
\<close>

fun dedup_keep_first :: "PyTorchModelMetadata list \<Rightarrow> PyTorchModelMetadata list" where
  "dedup_keep_first [] = []"
| "dedup_keep_first (m # ms) = m # dedup_keep_first (filter (\<lambda>x. str x \<noteq> str m) ms)"

definition mergeConsumerLists_first_wins ::
  "PyTorchModelMetadata list option \<Rightarrow> PyTorchModelMetadata list option
     \<Rightarrow> PyTorchModelMetadata list option" where
  "mergeConsumerLists_first_wins lhs rhs =
     (let u = dedup_keep_first (or_empty lhs @ or_empty rhs)
      in if u = [] then None else Some u)"

text \<open>
  Deduplication by canonical string where each canonical string keeps the position of
  its first entry and the value of its last entry.
\<close>

fun dedup_keep_last :: "PyTorchModelMetadata list \<Rightarrow> PyTorchModelMetadata list" where
  "dedup_keep_last [] = []"
| "dedup_keep_last (m # ms) =
     last (m # filter (\<lambda>x. str x = str m) ms)
       # dedup_keep_last (filter (\<lambda>x. str x \<noteq> str m) ms)"

definition mergeConsumerLists_last_wins ::
  "PyTorchModelMetadata list option \<Rightarrow> PyTorchModelMetadata list option
     \<Rightarrow> PyTorchModelMetadata list option" where
  "mergeConsumerLists_last_wins lhs rhs =
     (let u = dedup_keep_last (or_empty lhs @ or_empty rhs)
      in if u = [] then None else Some u)"

text \<open>One assignment \<^verbatim>\<open>mdict[str(x)] = x\<close>, seen on the list of values.\<close>

fun upsert ::
  "PyTorchModelMetadata list \<Rightarrow> PyTorchModelMetadata \<Rightarrow> PyTorchModelMetadata list" where
  "upsert [] x = [x]"
| "upsert (y # ys) x = (if str y = str x then x # ys else y # upsert ys x)"

text \<open>The invariant of \<^verbatim>\<open>mdict\<close>: every value is stored under its canonical string.\<close>

definition keyed :: "(string, PyTorchModelMetadata) pydict \<Rightarrow> bool" where
  "keyed d = (\<forall>(k, m) \<in> set d. k = str m)"

fun is_str :: "yaml \<Rightarrow> bool" where
  "is_str (YStr s) = True"
| "is_str _ = False"

fun is_bool :: "yaml \<Rightarrow> bool" where
  "is_bool (YBool b) = True"
| "is_bool _ = False"

text \<open>
  The two document shapes of the specification. A model document has the keys
  \<^verbatim>\<open>name\<close> (a string, required) and \<^verbatim>\<open>version\<close> (a string, optional) and no other
  key. An operator document has the optional boolean keys \<^verbatim>\<open>is_root_operator\<close>,
  \<^verbatim>\<open>is_used_for_training\<close> and \<^verbatim>\<open>include_all_overloads\<close>, the optional key
  \<^verbatim>\<open>models\<close> holding a list of model documents, and no other key.
\<close>

definition opt_field :: "(yaml \<Rightarrow> bool) \<Rightarrow> yaml option \<Rightarrow> bool" where
  "opt_field P f = (case f of None \<Rightarrow> True | Some v \<Rightarrow> P v)"

definition valid_model_document :: "document \<Rightarrow> bool" where
  "valid_model_document d =
     (dom d \<subseteq> {''name'', ''version''}
      \<and> (case d ''name'' of Some v \<Rightarrow> is_str v | None \<Rightarrow> False)
      \<and> opt_field is_str (d ''version''))"

fun valid_model_entry :: "yaml \<Rightarrow> bool" where
  "valid_model_entry (YDict d) = valid_model_document d"
| "valid_model_entry _ = False"

fun valid_models :: "yaml \<Rightarrow> bool" where
  "valid_models (YList xs) = list_all valid_model_entry xs"
| "valid_models _ = False"

definition valid_operator_document :: "document \<Rightarrow> bool" where
  "valid_operator_document d =
     (dom d \<subseteq> {''is_root_operator'', ''is_used_for_training'',
                 ''include_all_overloads'', ''models''}
      \<and> opt_field is_bool (d ''is_root_operator'')
      \<and> opt_field is_bool (d ''is_used_for_training'')
      \<and> opt_field is_bool (d ''include_all_overloads'')
      \<and> opt_field valid_models (d ''models''))"

text \<open>The round trip of an operator document, as the specification states it.\<close>

definition operator_round_trip :: "string \<Rightarrow> document \<Rightarrow> bool" where
  "operator_round_trip nm d =
     (case from_yaml_dict nm d of Inl e \<Rightarrow> False | Inr r \<Rightarrow> op_to_dict r = d)"

text \<open>The values \<^verbatim>\<open>from_yaml_dict\<close> takes for the flags a document leaves out.\<close>

definition flag_defaults :: document where
  "flag_defaults = [''is_root_operator'' \<mapsto> YBool True,
                    ''is_used_for_training'' \<mapsto> YBool True,
                    ''include_all_overloads'' \<mapsto> YBool True]"

text \<open>
  A registry in which every operator is stored under its own name, and two registries
  in which every key they have in common is the name of both operators stored under it.
\<close>

definition key_named :: "registry \<Rightarrow> bool" where
  "key_named r = (\<forall>(k, op) \<in> set r. op_name op = k)"

definition share_key_as_name :: "registry \<Rightarrow> registry \<Rightarrow> bool" where
  "share_key_as_name X Y =
     (\<forall>k a b. dict_get X k = Some a \<and> dict_get Y k = Some b \<longrightarrow> op_name a = k \<and> op_name b = k)"

text \<open>
  The operator \<^verbatim>\<open>combine_operators\<close> builds when it does not raise, and the entry
  of a merged registry under one key, from the entries of the two inputs under that key.
\<close>

definition merged :: "SelectiveBuildOperator \<Rightarrow> SelectiveBuildOperator \<Rightarrow> SelectiveBuildOperator" where
  "merged a b =
     \<lparr>op_name = op_name a,
      is_root_operator = is_root_operator a \<or> is_root_operator b,
      is_used_for_training = is_used_for_training a \<or> is_used_for_training b,
      include_all_overloads = include_all_overloads a \<or> include_all_overloads b,
      models = merge_model_lists (models a) (models b)\<rparr>"

fun merged_opt ::
  "SelectiveBuildOperator option \<Rightarrow> SelectiveBuildOperator option \<Rightarrow> SelectiveBuildOperator option" where
  "merged_opt None y = y"
| "merged_opt (Some a) None = Some a"
| "merged_opt (Some a) (Some b) = Some (merged a b)"


section \<open>Insertion-ordered dicts\<close>

lemma dict_set_keys:
  "map fst (dict_set d k v) = (if k \<in> fst ` set d then map fst d else map fst d @ [k])"
  by (induction d) (auto simp: image_iff split: if_splits)

lemma dict_set_subset: "set (dict_set d k v) \<subseteq> insert (k, v) (set d)"
  by (induction d) (auto split: if_splits)

lemma dict_set_neq_Nil: "dict_set d k v \<noteq> []"
  by (cases d) (auto split: if_splits)

lemma dict_set_distinct:
  "distinct (map fst d) \<Longrightarrow> distinct (map fst (dict_set d k v))"
  by (simp add: dict_set_keys)

lemma map_of_dict_set:
  "map_of (dict_set d k v) = (map_of d)(k \<mapsto> v)"
  by (induction d) (auto simp: fun_eq_iff)

lemma dict_set_fresh: "k \<notin> fst ` set d \<Longrightarrow> dict_set d k v = d @ [(k, v)]"
  by (induction d) auto

section \<open>Merging model lists\<close>

lemma or_empty_simps [simp]: "or_empty None = []" "or_empty (Some xs) = xs"
  by (simp_all add: or_empty_def)

lemma fill_mdict_append:
  "fill_mdict (xs @ ys) d = fill_mdict ys (fill_mdict xs d)"
  by (induction xs arbitrary: d) auto

lemma fill_mdict_snoc: "fill_mdict (xs @ [x]) d = dict_set (fill_mdict xs d) (str x) x"
  by (simp add: fill_mdict_append)

lemma fill_mdict_Nil_iff: "fill_mdict xs d = [] \<longleftrightarrow> xs = [] \<and> d = []"
  by (induction xs arbitrary: d) (auto simp: dict_set_neq_Nil)

lemma keyed_dict_set: "keyed d \<Longrightarrow> keyed (dict_set d (str m) m)"
  using dict_set_subset[of d "str m" m] by (auto simp: keyed_def)

lemma fill_mdict_inv:
  "keyed d \<Longrightarrow> distinct (map fst d) \<Longrightarrow>
   keyed (fill_mdict xs d) \<and> distinct (map fst (fill_mdict xs d))"
  by (induction xs arbitrary: d) (auto simp: keyed_dict_set dict_set_distinct)

lemma keyed_str_values: "keyed d \<Longrightarrow> map str (map snd d) = map fst d"
  by (induction d) (auto simp: keyed_def)

lemma str_last_same: "str (last (m # filter (\<lambda>x. str x = str m) ms)) = str m"
proof (cases "filter (\<lambda>x. str x = str m) ms = []")
  case True
  then show ?thesis by simp
next
  case False
  then have "last (filter (\<lambda>x. str x = str m) ms) \<in> set (filter (\<lambda>x. str x = str m) ms)"
    by (rule last_in_set)
  with False show ?thesis by simp
qed

text \<open>Appending one model to the input is one dict assignment on the output.\<close>

lemma dedup_keep_last_snoc:
  "dedup_keep_last (xs @ [x]) = upsert (dedup_keep_last xs) x"
proof (induction xs rule: dedup_keep_last.induct)
  case 1
  then show ?case by simp
next
  case (2 m ms)
  show ?case
  proof (cases "str x = str m")
    case True
    then show ?thesis using str_last_same[of m ms] by simp
  next
    case False
    then show ?thesis using 2 str_last_same[of m ms] by simp
  qed
qed

lemma dict_set_upsert:
  "dict_set (map (\<lambda>m. (str m, m)) ys) (str x) x = map (\<lambda>m. (str m, m)) (upsert ys x)"
  by (induction ys) auto

lemma fill_mdict_dedup_keep_last:
  "fill_mdict xs [] = map (\<lambda>m. (str m, m)) (dedup_keep_last xs)"
proof (induction xs rule: rev_induct)
  case Nil
  then show ?case by simp
next
  case (snoc x xs)
  then show ?case
    by (simp only: fill_mdict_snoc dedup_keep_last_snoc dict_set_upsert)
qed

text \<open>
  Claim C1, as stated: \<^verbatim>\<open>merge_model_lists\<close> returns the concatenation of \<^verbatim>\<open>lhs\<close>
  and \<^verbatim>\<open>rhs\<close> deduplicated by canonical string, keeping the entry met first. This
  fails: the models \<^verbatim>\<open>("a", "b")\<close> and \<^verbatim>\<open>("a@b", None)\<close> share the canonical string
  \<^verbatim>\<open>a@b\<close>, and the dict assignment of the loop overwrites the first with the second.
\<close>

theorem merge_model_lists_first_wins_counterexample:
  "merge_model_lists (Some [\<lparr>name = ''a'', version = Some ''b''\<rparr>])
                     (Some [\<lparr>name = ''a@b'', version = None\<rparr>])
     = Some [\<lparr>name = ''a@b'', version = None\<rparr>]
   \<and> mergeConsumerLists_first_wins (Some [\<lparr>name = ''a'', version = Some ''b''\<rparr>])
                     (Some [\<lparr>name = ''a@b'', version = None\<rparr>])
     = Some [\<lparr>name = ''a'', version = Some ''b''\<rparr>]
   \<and> merge_model_lists (Some [\<lparr>name = ''a'', version = Some ''b''\<rparr>])
                     (Some [\<lparr>name = ''a@b'', version = None\<rparr>])
     \<noteq> mergeConsumerLists_first_wins (Some [\<lparr>name = ''a'', version = Some ''b''\<rparr>])
                     (Some [\<lparr>name = ''a@b'', version = None\<rparr>])"
  by (simp add: merge_model_lists_def mergeConsumerLists_first_wins_def or_empty_def
        str_def dict_values_def)

text \<open>
  Claim C1, amended: for every pair of optional lists, \<^verbatim>\<open>merge_model_lists\<close> returns the
  concatenation of \<^verbatim>\<open>lhs\<close> and \<^verbatim>\<open>rhs\<close> deduplicated by canonical string, where each
  canonical string appears once, at the position of its first entry, with the entry met
  last under that canonical string (absent when there is no entry at all).
\<close>

theorem merge_model_lists_last_wins:
  "merge_model_lists lhs rhs = mergeConsumerLists_last_wins lhs rhs"
  by (simp add: merge_model_lists_def mergeConsumerLists_last_wins_def
        fill_mdict_dedup_keep_last dict_values_def comp_def Let_def)

text \<open>
  Claim C7: \<^verbatim>\<open>merge_model_lists\<close> treats \<^verbatim>\<open>None\<close> as the empty list, returns \<^verbatim>\<open>None\<close>
  exactly when both inputs are \<^verbatim>\<open>None\<close> or empty, never returns an empty list, and
  maps two \<^verbatim>\<open>None\<close> inputs to \<^verbatim>\<open>None\<close>.
\<close>

theorem merge_model_lists_absent:
  "merge_model_lists None rhs = merge_model_lists (Some []) rhs
   \<and> merge_model_lists lhs None = merge_model_lists lhs (Some [])
   \<and> (merge_model_lists lhs rhs = None)
       = ((lhs = None \<or> lhs = Some []) \<and> (rhs = None \<or> rhs = Some []))
   \<and> merge_model_lists lhs rhs \<noteq> Some []
   \<and> merge_model_lists None None = None"
  by (cases lhs; cases rhs)
     (auto simp: merge_model_lists_def dict_values_def fill_mdict_Nil_iff Let_def)

text \<open>
  Claim C9: a list returned by \<^verbatim>\<open>merge_model_lists\<close> is non-empty and no two of its
  entries have the same canonical string, also when the duplicates sit inside one
  input list.
\<close>

theorem merge_model_lists_distinct:
  assumes "merge_model_lists lhs rhs = Some ys"
  shows "ys \<noteq> [] \<and> distinct (map str ys)"
proof -
  let ?d = "fill_mdict (or_empty lhs @ or_empty rhs) []"
  from assms have ne: "?d \<noteq> []" and ys: "ys = map snd ?d"
    by (auto simp: merge_model_lists_def dict_values_def Let_def split: if_splits)
  have inv: "keyed ?d \<and> distinct (map fst ?d)"
    by (rule fill_mdict_inv) (simp_all add: keyed_def)
  have "map str ys = map fst ?d"
    unfolding ys using inv by (intro keyed_str_values) simp
  moreover have "ys \<noteq> []" using ne ys by simp
  ultimately show ?thesis using inv by simp
qed

theorem merge_model_lists_distinct_witness:
  "merge_model_lists (Some [\<lparr>name = ''m'', version = Some ''1''\<rparr>,
                            \<lparr>name = ''n'', version = None\<rparr>,
                            \<lparr>name = ''m'', version = Some ''1''\<rparr>]) None
     = Some [\<lparr>name = ''m'', version = Some ''1''\<rparr>, \<lparr>name = ''n'', version = None\<rparr>]
   \<and> [\<lparr>name = ''m'', version = Some ''1''\<rparr>, \<lparr>name = ''n'', version = None\<rparr>] \<noteq> []
   \<and> distinct (map str [\<lparr>name = ''m'', version = Some ''1''\<rparr>, \<lparr>name = ''n'', version = None\<rparr>])"
proof -
  have h: "merge_model_lists (Some [\<lparr>name = ''m'', version = Some ''1''\<rparr>,
                            \<lparr>name = ''n'', version = None\<rparr>,
                            \<lparr>name = ''m'', version = Some ''1''\<rparr>]) None
     = Some [\<lparr>name = ''m'', version = Some ''1''\<rparr>, \<lparr>name = ''n'', version = None\<rparr>]"
    by (simp add: merge_model_lists_def str_def dict_values_def)
  show ?thesis using h merge_model_lists_distinct [OF h] by simp
qed

section \<open>Combining two operators\<close>

text \<open>
  Claim C3: when both operators have the same name, \<^verbatim>\<open>combine_operators\<close> returns the
  operator with that name, each flag the disjunction of the two flags, and the models
  merged by \<^verbatim>\<open>merge_model_lists\<close>.
\<close>

theorem combine_operators_same_name:
  assumes "op_name lhs = op_name rhs"
  shows "combine_operators lhs rhs =
           Inr \<lparr>op_name = op_name rhs,
                is_root_operator = is_root_operator lhs \<or> is_root_operator rhs,
                is_used_for_training = is_used_for_training lhs \<or> is_used_for_training rhs,
                include_all_overloads = include_all_overloads lhs \<or> include_all_overloads rhs,
                models = merge_model_lists (models lhs) (models rhs)\<rparr>"
  using assms by (simp add: combine_operators_def)

theorem combine_operators_same_name_witness:
  "op_name \<lparr>op_name = ''x'', is_root_operator = False, is_used_for_training = False,
            include_all_overloads = False, models = None\<rparr>
     = op_name \<lparr>op_name = ''x'', is_root_operator = True, is_used_for_training = False,
            include_all_overloads = False, models = None\<rparr>
   \<and> combine_operators
       \<lparr>op_name = ''x'', is_root_operator = False, is_used_for_training = False,
        include_all_overloads = False, models = None\<rparr>
       \<lparr>op_name = ''x'', is_root_operator = True, is_used_for_training = False,
        include_all_overloads = False, models = None\<rparr>
     = Inr \<lparr>op_name = ''x'', is_root_operator = True, is_used_for_training = False,
            include_all_overloads = False, models = None\<rparr>"
  using combine_operators_same_name
    [of "\<lparr>op_name = ''x'', is_root_operator = False, is_used_for_training = False,
          include_all_overloads = False, models = None\<rparr>"
        "\<lparr>op_name = ''x'', is_root_operator = True, is_used_for_training = False,
          include_all_overloads = False, models = None\<rparr>"]
  by (simp add: merge_model_lists_def)

text \<open>
  Claim C4: when the two names differ, \<^verbatim>\<open>combine_operators\<close> raises an exception whose
  message quotes both names, and returns no operator.
\<close>

theorem combine_operators_name_mismatch:
  assumes "op_name lhs \<noteq> op_name rhs"
  shows "combine_operators lhs rhs =
           Inl (Exception (''Expected both arguments to have the same name, but got ''
                           @ [CHR 0x27] @ op_name lhs @ [CHR 0x27] @ '' and ''
                           @ [CHR 0x27] @ op_name rhs @ [CHR 0x27] @ '' instead''))
         \<and> (\<forall>r. combine_operators lhs rhs \<noteq> Inr r)"
  using assms by (simp add: combine_operators_def)

theorem combine_operators_name_mismatch_witness:
  "op_name \<lparr>op_name = ''x'', is_root_operator = True, is_used_for_training = False,
            include_all_overloads = False, models = None\<rparr>
     \<noteq> op_name \<lparr>op_name = ''y'', is_root_operator = False, is_used_for_training = True,
            include_all_overloads = False, models = None\<rparr>
   \<and> combine_operators
       \<lparr>op_name = ''x'', is_root_operator = True, is_used_for_training = False,
        include_all_overloads = False, models = None\<rparr>
       \<lparr>op_name = ''y'', is_root_operator = False, is_used_for_training = True,
        include_all_overloads = False, models = None\<rparr>
     = Inl (Exception
         (''Expected both arguments to have the same name, but got ''
           @ [CHR 0x27] @ ''x'' @ [CHR 0x27] @ '' and ''
           @ [CHR 0x27] @ ''y'' @ [CHR 0x27] @ '' instead''))"
  using combine_operators_name_mismatch
    [of "\<lparr>op_name = ''x'', is_root_operator = True, is_used_for_training = False,
          include_all_overloads = False, models = None\<rparr>"
        "\<lparr>op_name = ''y'', is_root_operator = False, is_used_for_training = True,
          include_all_overloads = False, models = None\<rparr>"]
  by simp

section \<open>Parsing model metadata\<close>

text \<open>
  Claim C8: \<^verbatim>\<open>PyTorchModelMetadata.from_yaml\<close> raises exactly when \<^verbatim>\<open>name\<close> is missing
  or not a string, or \<^verbatim>\<open>version\<close> is present and not a string (a KeyError for the
  missing key, an AssertionError for a wrong type); otherwise it returns the metadata
  with that name, whose version is \<^verbatim>\<open>None\<close> iff the key \<^verbatim>\<open>version\<close> is missing.
\<close>

theorem from_yaml_errors:
  "(\<exists>e. from_yaml data = Inl e)
     = (data ''name'' = None
        \<or> (\<exists>v. data ''name'' = Some v \<and> \<not> is_str v)
        \<or> (\<exists>v. data ''version'' = Some v \<and> \<not> is_str v))
   \<and> (\<forall>e. from_yaml data = Inl e \<longrightarrow>
         e = (if data ''name'' = None then KeyError ''name'' else AssertionError))
   \<and> (\<forall>m. from_yaml data = Inr m \<longrightarrow>
         data ''name'' = Some (YStr (name m))
         \<and> (version m = None) = (data ''version'' = None)
         \<and> (\<forall>ver. version m = Some ver \<longrightarrow> data ''version'' = Some (YStr ver)))"
proof (cases "data ''name''")
  case None
  then show ?thesis by (simp add: from_yaml_def)
next
  case (Some v)
  note nm = Some
  show ?thesis
  proof (cases "data ''version''")
    case None
    then show ?thesis using nm by (cases v) (simp_all add: from_yaml_def)
  next
    case (Some w)
    then show ?thesis using nm by (cases v; cases w) (simp_all add: from_yaml_def)
  qed
qed

theorem from_yaml_errors_witness:
  "from_yaml [''name'' \<mapsto> YStr ''m''] = Inr \<lparr>name = ''m'', version = None\<rparr>
   \<and> [''name'' \<mapsto> YStr ''m''] ''name'' = Some (YStr (name \<lparr>name = ''m'', version = None\<rparr>))
   \<and> (version \<lparr>name = ''m'', version = None\<rparr> = None)
       = ([''name'' \<mapsto> YStr ''m''] ''version'' = None)
   \<and> from_yaml [''name'' \<mapsto> YStr ''m'', ''version'' \<mapsto> YInt 1] = Inl AssertionError
   \<and> (\<exists>v. [''name'' \<mapsto> YStr ''m'', ''version'' \<mapsto> YInt 1] ''version'' = Some v \<and> \<not> is_str v)"
  using from_yaml_errors [of "[''name'' \<mapsto> YStr ''m'']"]
        from_yaml_errors [of "[''name'' \<mapsto> YStr ''m'', ''version'' \<mapsto> YInt 1]"]
  by (simp add: from_yaml_def)

section \<open>Associativity of merging model lists\<close>

lemma dict_set_twice: "dict_set (dict_set d k v) k w = dict_set d k w"
  by (induction d) auto

lemma dict_set_swap:
  "k \<noteq> k' \<Longrightarrow>
   dict_set (dict_set (dict_set d k v) k' x) k w = dict_set (dict_set d k w) k' x"
  by (induction d) (auto simp: dict_set_twice)

text \<open>
  Once a key is in the dict, the later assignments to it can be folded into the first:
  the key keeps its position and ends with the value assigned last.
\<close>

lemma fill_mdict_hoist:
  "str m = k \<Longrightarrow>
   fill_mdict ms (dict_set d k m)
     = fill_mdict (filter (\<lambda>x. str x \<noteq> k) ms)
         (dict_set d k (last (m # filter (\<lambda>x. str x = k) ms)))"
proof (induction ms arbitrary: d m)
  case Nil
  then show ?case by simp
next
  case (Cons x ms)
  show ?case
  proof (cases "str x = k")
    case True
    from Cons.IH[OF True, of d] True show ?thesis
      by (simp add: dict_set_twice)
  next
    case False
    let ?d' = "dict_set (dict_set d k m) (str x) x"
    have same: "dict_set ?d' k m = ?d'"
      using False dict_set_swap[of k "str x" d m x m] by simp
    have "fill_mdict (x # ms) (dict_set d k m) = fill_mdict ms (dict_set ?d' k m)"
      by (simp add: same)
    also have "\<dots> = fill_mdict (filter (\<lambda>x. str x \<noteq> k) ms)
         (dict_set ?d' k (last (m # filter (\<lambda>x. str x = k) ms)))"
      by (rule Cons.IH[OF Cons.prems])
    also have "dict_set ?d' k (last (m # filter (\<lambda>x. str x = k) ms))
        = dict_set (dict_set d k (last (m # filter (\<lambda>x. str x = k) ms))) (str x) x"
      using False by (intro dict_set_swap) simp
    finally show ?thesis using False by simp
  qed
qed

lemma fill_mdict_dedup: "fill_mdict (dedup_keep_last ys) d = fill_mdict ys d"
proof (induction ys arbitrary: d rule: dedup_keep_last.induct)
  case 1
  then show ?case by simp
next
  case (2 m ms)
  show ?case
    using "2.IH"[of "dict_set d (str (last (m # filter (\<lambda>x. str x = str m) ms)))
                       (last (m # filter (\<lambda>x. str x = str m) ms))"]
          fill_mdict_hoist[of m "str m" ms d] str_last_same[of m ms]
    by simp
qed

lemma kv_inj: "map (\<lambda>m. (str m, m)) xs = map (\<lambda>m. (str m, m)) ys \<Longrightarrow> xs = ys"
proof -
  assume "map (\<lambda>m. (str m, m)) xs = map (\<lambda>m. (str m, m)) ys"
  then have "map snd (map (\<lambda>m. (str m, m)) xs) = map snd (map (\<lambda>m. (str m, m)) ys)"
    by simp
  then show ?thesis by (simp add: comp_def)
qed

lemma dedup_keep_last_absorb_left:
  "dedup_keep_last (dedup_keep_last xs @ ys) = dedup_keep_last (xs @ ys)"
  by (rule kv_inj)
     (simp add: fill_mdict_dedup_keep_last[symmetric] fill_mdict_append fill_mdict_dedup)

lemma dedup_keep_last_absorb_right:
  "dedup_keep_last (xs @ dedup_keep_last ys) = dedup_keep_last (xs @ ys)"
  by (rule kv_inj)
     (simp add: fill_mdict_dedup_keep_last[symmetric] fill_mdict_append fill_mdict_dedup)

lemma or_empty_merge_model_lists:
  "or_empty (merge_model_lists l r) = dedup_keep_last (or_empty l @ or_empty r)"
  by (simp add: merge_model_lists_def fill_mdict_dedup_keep_last dict_values_def comp_def Let_def)

lemma merge_model_lists_dedup:
  "merge_model_lists l r =
     (if dedup_keep_last (or_empty l @ or_empty r) = [] then None
      else Some (dedup_keep_last (or_empty l @ or_empty r)))"
  by (simp add: merge_model_lists_def fill_mdict_dedup_keep_last dict_values_def comp_def Let_def)

lemma merge_model_lists_assoc:
  "merge_model_lists (merge_model_lists a b) c = merge_model_lists a (merge_model_lists b c)"
  by (simp only: merge_model_lists_dedup[of "merge_model_lists a b" c]
        merge_model_lists_dedup[of a "merge_model_lists b c"]
        or_empty_merge_model_lists dedup_keep_last_absorb_left dedup_keep_last_absorb_right
        append_assoc)

section \<open>Document round trip\<close>

lemma is_str_cases: "is_str v \<Longrightarrow> \<exists>s. v = YStr s"
  by (cases v) simp_all

lemma is_bool_cases: "is_bool v \<Longrightarrow> \<exists>b. v = YBool b"
  by (cases v) simp_all

lemma valid_model_round_trip:
  assumes "valid_model_document d"
  shows "\<exists>m. from_yaml d = Inr m \<and> to_dict m = d"
proof -
  from assms have "case d ''name'' of Some v \<Rightarrow> is_str v | None \<Rightarrow> False"
    by (simp add: valid_model_document_def)
  then obtain v where "d ''name'' = Some v" "is_str v"
    by (cases "d ''name''") simp_all
  then obtain nm where nm: "d ''name'' = Some (YStr nm)"
    using is_str_cases by blast
  from assms have "dom d \<subseteq> {''name'', ''version''}"
    by (simp add: valid_model_document_def)
  then have other: "d k = None" if "k \<noteq> ''name''" "k \<noteq> ''version''" for k
  proof -
    from that have "k \<notin> {''name'', ''version''}" by simp
    with \<open>dom d \<subseteq> {''name'', ''version''}\<close> have "k \<notin> dom d" by blast
    then show ?thesis by (simp add: domIff)
  qed
  show ?thesis
  proof (cases "d ''version''")
    case None
    have "to_dict \<lparr>name = nm, version = None\<rparr> k = d k" for k
    proof (cases "k = ''name'' \<or> k = ''version''")
      case True
      then show ?thesis using nm None by (auto simp: to_dict_def)
    next
      case False
      then show ?thesis using other[of k] by (simp add: to_dict_def)
    qed
    then have "to_dict \<lparr>name = nm, version = None\<rparr> = d" by (rule ext)
    moreover have "from_yaml d = Inr \<lparr>name = nm, version = None\<rparr>"
      using nm None by (simp add: from_yaml_def)
    ultimately show ?thesis by simp
  next
    case (Some w)
    from assms have "opt_field is_str (d ''version'')"
      by (simp add: valid_model_document_def)
    with Some have "is_str w" by (simp add: opt_field_def)
    then obtain ver where ver: "d ''version'' = Some (YStr ver)"
      using Some is_str_cases by blast
    have "to_dict \<lparr>name = nm, version = Some ver\<rparr> k = d k" for k
    proof (cases "k = ''name'' \<or> k = ''version''")
      case True
      then show ?thesis using nm ver by (auto simp: to_dict_def)
    next
      case False
      then show ?thesis using other[of k] by (simp add: to_dict_def)
    qed
    then have "to_dict \<lparr>name = nm, version = Some ver\<rparr> = d" by (rule ext)
    moreover have "from_yaml d = Inr \<lparr>name = nm, version = Some ver\<rparr>"
      using nm ver by (simp add: from_yaml_def)
    ultimately show ?thesis by simp
  qed
qed

lemma valid_models_round_trip:
  assumes "list_all valid_model_entry xs"
  shows "\<exists>ms. from_yaml_list xs = Inr ms \<and> map (\<lambda>m. YDict (to_dict m)) ms = xs"
  using assms
proof (induction xs)
  case Nil
  then show ?case by simp
next
  case (Cons x xs)
  then obtain d where x: "x = YDict d" and d: "valid_model_document d"
    by (cases x) simp_all
  from valid_model_round_trip[OF d] obtain m where m: "from_yaml d = Inr m" "to_dict m = d"
    by blast
  from Cons obtain ms where ms: "from_yaml_list xs = Inr ms" "map (\<lambda>m. YDict (to_dict m)) ms = xs"
    by auto
  show ?case using x m ms by simp
qed

lemma valid_get_flag:
  assumes "opt_field is_bool (d key)"
  shows "\<exists>b. get_flag d key = Inr b \<and> (case d key of None \<Rightarrow> b | Some v \<Rightarrow> v = YBool b)"
proof (cases "d key")
  case None
  then show ?thesis by (intro exI[of _ True]) (simp add: get_flag_def)
next
  case (Some v)
  with assms have "is_bool v" by (simp add: opt_field_def)
  then obtain b where "v = YBool b" using is_bool_cases by blast
  with Some show ?thesis by (simp add: get_flag_def)
qed

lemma valid_get_models:
  assumes "opt_field valid_models (d ''models'')"
  shows "\<exists>ms. get_models d = Inr ms
           \<and> (case ms of None \<Rightarrow> d ''models'' = None
               | Some l \<Rightarrow> d ''models'' = Some (YList (map (\<lambda>m. YDict (to_dict m)) l)))"
proof (cases "d ''models''")
  case None
  then show ?thesis by (intro exI[of _ None]) (simp add: get_models_def)
next
  case (Some v)
  with assms have "valid_models v" by (simp add: opt_field_def)
  then obtain xs where v: "v = YList xs" and xs: "list_all valid_model_entry xs"
    by (cases v) simp_all
  from valid_models_round_trip[OF xs] obtain l
    where "from_yaml_list xs = Inr l" "map (\<lambda>m. YDict (to_dict m)) l = xs" by blast
  with Some v show ?thesis by (intro exI[of _ "Some l"]) (simp add: get_models_def)
qed

lemma valid_operator_round_trip:
  assumes "valid_operator_document d"
  shows "\<exists>r. from_yaml_dict nm d = Inr r \<and> op_name r = nm \<and> op_to_dict r = flag_defaults ++ d"
proof -
  from assms have fl: "opt_field is_bool (d ''is_root_operator'')"
      "opt_field is_bool (d ''is_used_for_training'')"
      "opt_field is_bool (d ''include_all_overloads'')"
    and mo: "opt_field valid_models (d ''models'')"
    and dom: "dom d \<subseteq> {''is_root_operator'', ''is_used_for_training'',
                 ''include_all_overloads'', ''models''}"
    by (simp_all add: valid_operator_document_def)
  from valid_get_flag[of d "''is_root_operator''", OF fl(1)] obtain b1 where b1: "get_flag d ''is_root_operator'' = Inr b1"
    "case d ''is_root_operator'' of None \<Rightarrow> b1 | Some v \<Rightarrow> v = YBool b1" by blast
  from valid_get_flag[of d "''is_used_for_training''", OF fl(2)] obtain b2 where b2: "get_flag d ''is_used_for_training'' = Inr b2"
    "case d ''is_used_for_training'' of None \<Rightarrow> b2 | Some v \<Rightarrow> v = YBool b2" by blast
  from valid_get_flag[of d "''include_all_overloads''", OF fl(3)] obtain b3 where b3: "get_flag d ''include_all_overloads'' = Inr b3"
    "case d ''include_all_overloads'' of None \<Rightarrow> b3 | Some v \<Rightarrow> v = YBool b3" by blast
  from valid_get_models[of d, OF mo] obtain ms where ms: "get_models d = Inr ms"
    "case ms of None \<Rightarrow> d ''models'' = None
      | Some l \<Rightarrow> d ''models'' = Some (YList (map (\<lambda>m. YDict (to_dict m)) l))" by blast
  let ?r = "\<lparr>op_name = nm, is_root_operator = b1, is_used_for_training = b2,
             include_all_overloads = b3, models = ms\<rparr>"
  have r: "from_yaml_dict nm d = Inr ?r"
    using b1(1) b2(1) b3(1) ms(1) by (simp add: from_yaml_dict_def)
  from dom have other: "d k = None"
    if "k \<noteq> ''is_root_operator''" "k \<noteq> ''is_used_for_training''"
       "k \<noteq> ''include_all_overloads''" "k \<noteq> ''models''" for k
  proof -
    from that have "k \<notin> {''is_root_operator'', ''is_used_for_training'',
                 ''include_all_overloads'', ''models''}" by simp
    with dom have "k \<notin> dom d" by blast
    then show ?thesis by (simp add: domIff)
  qed
  have "op_to_dict ?r k = (flag_defaults ++ d) k" for k
  proof -
    consider "k = ''is_root_operator''" | "k = ''is_used_for_training''"
      | "k = ''include_all_overloads''" | "k = ''models''"
      | "k \<noteq> ''is_root_operator''" "k \<noteq> ''is_used_for_training''"
        "k \<noteq> ''include_all_overloads''" "k \<noteq> ''models''" by blast
    then show ?thesis
    proof cases
      case 1
      then show ?thesis using b1(2)
        by (cases ms; cases "d ''is_root_operator''")
           (simp_all add: op_to_dict_def flag_defaults_def map_add_def)
    next
      case 2
      then show ?thesis using b2(2)
        by (cases ms; cases "d ''is_used_for_training''")
           (simp_all add: op_to_dict_def flag_defaults_def map_add_def)
    next
      case 3
      then show ?thesis using b3(2)
        by (cases ms; cases "d ''include_all_overloads''")
           (simp_all add: op_to_dict_def flag_defaults_def map_add_def)
    next
      case 4
      then show ?thesis using ms(2)
        by (cases ms) (simp_all add: op_to_dict_def flag_defaults_def map_add_def)
    next
      case 5
      then show ?thesis using other[of k]
        by (cases ms) (simp_all add: op_to_dict_def flag_defaults_def map_add_def)
    qed
  qed
  then have "op_to_dict ?r = flag_defaults ++ d" by (rule ext)
  with r show ?thesis by simp
qed

lemma flag_defaults_absorbed:
  assumes "d ''is_root_operator'' \<noteq> None" "d ''is_used_for_training'' \<noteq> None"
    "d ''include_all_overloads'' \<noteq> None"
  shows "flag_defaults ++ d = d"
proof (rule ext)
  fix k
  show "(flag_defaults ++ d) k = d k"
  proof (cases "d k")
    case None
    with assms have "k \<noteq> ''is_root_operator''" "k \<noteq> ''is_used_for_training''"
      "k \<noteq> ''include_all_overloads''" by auto
    then show ?thesis using None by (simp add: map_add_def flag_defaults_def)
  next
    case (Some v)
    then show ?thesis by (simp add: map_add_def)
  qed
qed

text \<open>
  Claim C2, as stated: serializing the operator parsed from a valid document gives the
  document back. This fails for a document that leaves a flag out: \<^verbatim>\<open>from_yaml_dict\<close>
  reads the missing flag as \<^verbatim>\<open>True\<close> and \<^verbatim>\<open>to_dict\<close> always writes the three flags.
\<close>

theorem operator_round_trip_counterexample:
  "valid_operator_document [''is_root_operator'' \<mapsto> YBool False]
   \<and> from_yaml_dict ''aten::add'' [''is_root_operator'' \<mapsto> YBool False]
       = Inr \<lparr>op_name = ''aten::add'', is_root_operator = False, is_used_for_training = True,
              include_all_overloads = True, models = None\<rparr>
   \<and> op_to_dict \<lparr>op_name = ''aten::add'', is_root_operator = False,
                  is_used_for_training = True, include_all_overloads = True, models = None\<rparr>
         ''is_used_for_training'' = Some (YBool True)
   \<and> [''is_root_operator'' \<mapsto> YBool False] ''is_used_for_training'' = None
   \<and> \<not> operator_round_trip ''aten::add'' [''is_root_operator'' \<mapsto> YBool False]"
proof -
  let ?d = "[''is_root_operator'' \<mapsto> YBool False]"
  let ?r = "\<lparr>op_name = ''aten::add'', is_root_operator = False, is_used_for_training = True,
              include_all_overloads = True, models = None\<rparr>"
  have v: "valid_operator_document ?d"
    by (simp add: valid_operator_document_def opt_field_def)
  have f: "from_yaml_dict ''aten::add'' ?d = Inr ?r"
    by (simp add: from_yaml_dict_def get_flag_def get_models_def)
  have t: "op_to_dict ?r ''is_used_for_training'' = Some (YBool True)"
    by (simp add: op_to_dict_def)
  have n: "?d ''is_used_for_training'' = None" by simp
  have "op_to_dict ?r \<noteq> ?d"
  proof
    assume "op_to_dict ?r = ?d"
    then have "op_to_dict ?r ''is_used_for_training'' = ?d ''is_used_for_training''"
      by (rule fun_cong)
    with t n show False by simp
  qed
  then have "\<not> operator_round_trip ''aten::add'' ?d"
    by (simp add: operator_round_trip_def f)
  with v f t n show ?thesis by blast
qed

text \<open>
  Claim C2, amended: a valid model document parses, and serializing the result gives the
  document back. A valid operator document parses, and serializing the result gives the
  document with every flag it leaves out added with the value \<^verbatim>\<open>True\<close>; the key
  \<^verbatim>\<open>models\<close> is written iff the document has it. So the document itself comes back
  when it holds all three flags.
\<close>

theorem round_trip_with_flag_defaults:
  "(valid_model_document d \<longrightarrow> (\<exists>m. from_yaml d = Inr m \<and> to_dict m = d))
   \<and> (valid_operator_document op_info \<longrightarrow>
        (\<exists>r. from_yaml_dict nm op_info = Inr r
            \<and> op_to_dict r = flag_defaults ++ op_info
            \<and> (op_info ''is_root_operator'' \<noteq> None
               \<and> op_info ''is_used_for_training'' \<noteq> None
               \<and> op_info ''include_all_overloads'' \<noteq> None \<longrightarrow> op_to_dict r = op_info)))"
proof (intro conjI impI)
  assume "valid_model_document d"
  then show "\<exists>m. from_yaml d = Inr m \<and> to_dict m = d" by (rule valid_model_round_trip)
next
  assume "valid_operator_document op_info"
  from valid_operator_round_trip[OF this, of nm] obtain r
    where r: "from_yaml_dict nm op_info = Inr r" "op_to_dict r = flag_defaults ++ op_info"
    by blast
  show "\<exists>r. from_yaml_dict nm op_info = Inr r
            \<and> op_to_dict r = flag_defaults ++ op_info
            \<and> (op_info ''is_root_operator'' \<noteq> None
               \<and> op_info ''is_used_for_training'' \<noteq> None
               \<and> op_info ''include_all_overloads'' \<noteq> None \<longrightarrow> op_to_dict r = op_info)"
    using r flag_defaults_absorbed[of op_info] by auto
qed

theorem round_trip_with_flag_defaults_witness:
  "valid_model_document [''name'' \<mapsto> YStr ''m'', ''version'' \<mapsto> YStr ''1'']
   \<and> (\<exists>m. from_yaml [''name'' \<mapsto> YStr ''m'', ''version'' \<mapsto> YStr ''1''] = Inr m
          \<and> to_dict m = [''name'' \<mapsto> YStr ''m'', ''version'' \<mapsto> YStr ''1''])
   \<and> valid_operator_document
        [''is_root_operator'' \<mapsto> YBool False, ''is_used_for_training'' \<mapsto> YBool True,
         ''include_all_overloads'' \<mapsto> YBool False,
         ''models'' \<mapsto> YList [YDict [''name'' \<mapsto> YStr ''m'']]]
   \<and> (\<exists>r. from_yaml_dict ''aten::add''
             [''is_root_operator'' \<mapsto> YBool False, ''is_used_for_training'' \<mapsto> YBool True,
              ''include_all_overloads'' \<mapsto> YBool False,
              ''models'' \<mapsto> YList [YDict [''name'' \<mapsto> YStr ''m'']]] = Inr r
          \<and> op_to_dict r =
             [''is_root_operator'' \<mapsto> YBool False, ''is_used_for_training'' \<mapsto> YBool True,
              ''include_all_overloads'' \<mapsto> YBool False,
              ''models'' \<mapsto> YList [YDict [''name'' \<mapsto> YStr ''m'']]])"
proof -
  let ?d = "[''name'' \<mapsto> YStr ''m'', ''version'' \<mapsto> YStr ''1'']"
  let ?o = "[''is_root_operator'' \<mapsto> YBool False, ''is_used_for_training'' \<mapsto> YBool True,
             ''include_all_overloads'' \<mapsto> YBool False,
             ''models'' \<mapsto> YList [YDict [''name'' \<mapsto> YStr ''m'']]]"
  have v1: "valid_model_document ?d"
    by (simp add: valid_model_document_def opt_field_def)
  have v0: "valid_model_document [''name'' \<mapsto> YStr ''m'']"
    by (simp add: valid_model_document_def opt_field_def)
  have v2: "valid_operator_document ?o"
    by (simp add: valid_operator_document_def opt_field_def v0)
  have p: "?o ''is_root_operator'' \<noteq> None \<and> ?o ''is_used_for_training'' \<noteq> None
           \<and> ?o ''include_all_overloads'' \<noteq> None" by simp
  show ?thesis
    using round_trip_with_flag_defaults[of ?d ?o "''aten::add''"] v1 v2 p by blast
qed

section \<open>Merging registries\<close>

lemma combine_operators_merged:
  "op_name a = op_name b \<Longrightarrow> combine_operators a b = Inr (merged a b)"
  by (simp add: combine_operators_def merged_def)

lemma merged_assoc: "merged (merged a b) c = merged a (merged b c)"
  by (simp add: merged_def merge_model_lists_assoc disj_assoc)

lemma merged_opt_assoc: "merged_opt (merged_opt x y) z = merged_opt x (merged_opt y z)"
  by (cases x; cases y; cases z) (simp_all add: merged_assoc)

lemma merged_opt_Some_name:
  assumes "merged_opt x y = Some z"
  shows "(x = Some z \<and> y = None) \<or> (x = None \<and> y = Some z)
         \<or> (\<exists>a b. x = Some a \<and> y = Some b \<and> op_name z = op_name a)"
  using assms by (cases x; cases y) (auto simp: merged_def)

lemma share_key_as_nameD:
  "share_key_as_name X Y \<Longrightarrow> dict_get X k = Some a \<Longrightarrow> dict_get Y k = Some b
   \<Longrightarrow> op_name a = k \<and> op_name b = k"
  unfolding share_key_as_name_def by blast

lemma key_named_dict_set:
  "key_named d \<Longrightarrow> op_name v = k \<Longrightarrow> key_named (dict_set d k v)"
  using dict_set_subset[of d k v] by (auto simp: key_named_def)

lemma key_named_get:
  "key_named d \<Longrightarrow> dict_get d k = Some v \<Longrightarrow> op_name v = k"
  by (auto simp: key_named_def dict_get_def dest: map_of_SomeD)

lemma dict_get_fresh: "k \<notin> fst ` set d \<Longrightarrow> dict_get d k = None"
  by (simp add: dict_get_def map_of_eq_None_iff)

lemma pydict_eqI:
  "map fst xs = map fst ys \<Longrightarrow> distinct (map fst xs) \<Longrightarrow>
   (\<And>k. dict_get xs k = dict_get ys k) \<Longrightarrow> xs = ys"
proof (induction xs arbitrary: ys)
  case Nil
  then show ?case by simp
next
  case (Cons x xs)
  from Cons.prems(1) obtain y ys' where ys: "ys = y # ys'" by (cases ys) auto
  obtain k v where x: "x = (k, v)" by (cases x)
  obtain w where y: "y = (k, w)" using Cons.prems(1) ys x by (cases y) auto
  from Cons.prems(3)[of k] have vw: "v = w" using x y ys by (simp add: dict_get_def)
  have keys: "map fst xs = map fst ys'" using Cons.prems(1) ys by simp
  have nk: "k \<notin> fst ` set xs" and d: "distinct (map fst xs)"
    using Cons.prems(2) x by auto
  have "dict_get xs j = dict_get ys' j" for j
  proof (cases "j = k")
    case True
    have "set (map fst ys') = set (map fst xs)" using keys by simp
    then have "fst ` set ys' = fst ` set xs" by simp
    then show ?thesis using True nk by (simp add: dict_get_fresh)
  next
    case False
    then show ?thesis using Cons.prems(3)[of j] x y ys by (simp add: dict_get_def)
  qed
  from Cons.IH[OF keys d this] show ?case using x y ys vw by simp
qed

text \<open>The loop keeps every operator stored under its own name, and so never raises.\<close>

lemma merge_loop_key_named:
  "key_named xs \<Longrightarrow> key_named acc \<Longrightarrow> \<exists>r. merge_loop xs acc = Inr r \<and> key_named r"
proof (induction xs arbitrary: acc)
  case Nil
  then show ?case by simp
next
  case (Cons x xs)
  obtain nm op where x: "x = (nm, op)" by (cases x)
  from Cons.prems(1) x have op: "op_name op = nm" and xs: "key_named xs"
    by (simp_all add: key_named_def)
  show ?case
  proof (cases "dict_get acc nm")
    case None
    have "key_named (dict_set acc nm op)"
      using Cons.prems(2) op by (rule key_named_dict_set)
    from Cons.IH[OF xs this] show ?thesis using x None by simp
  next
    case (Some existing)
    then have ex: "op_name existing = nm"
      using Cons.prems(2) key_named_get by blast
    then have c: "combine_operators existing op = Inr (merged existing op)"
      using op by (simp add: combine_operators_merged)
    have "key_named (dict_set acc nm (merged existing op))"
      using Cons.prems(2) ex by (intro key_named_dict_set) (simp_all add: merged_def)
    from Cons.IH[OF xs this] show ?thesis using x Some c by simp
  qed
qed

text \<open>Items with distinct keys that the dict does not hold yet are appended as they are.\<close>

lemma merge_loop_fresh:
  "distinct (map fst xs) \<Longrightarrow> fst ` set xs \<inter> fst ` set acc = {} \<Longrightarrow>
   merge_loop xs acc = Inr (acc @ xs)"
proof (induction xs arbitrary: acc)
  case Nil
  then show ?case by simp
next
  case (Cons x xs)
  obtain nm op where x: "x = (nm, op)" by (cases x)
  from Cons.prems x have fresh: "nm \<notin> fst ` set acc" and nxs: "nm \<notin> fst ` set xs"
    and d: "distinct (map fst xs)" and disj: "fst ` set xs \<inter> fst ` set acc = {}"
    by auto
  have "fst ` set xs \<inter> fst ` set (acc @ [(nm, op)]) = {}"
    using disj nxs by auto
  from Cons.IH[OF d this] show ?case
    using x fresh by (simp add: dict_get_fresh dict_set_fresh)
qed

lemma merge_loop_append:
  "merge_loop xs acc = Inr r \<Longrightarrow> merge_loop (xs @ ys) acc = merge_loop ys r"
proof (induction xs arbitrary: acc)
  case Nil
  then show ?case by simp
next
  case (Cons x xs)
  obtain nm op where x: "x = (nm, op)" by (cases x)
  show ?case using Cons x
    by (auto split: option.splits sum.splits)
qed

lemma merge_operator_dicts_loop:
  "distinct (map fst lhs) \<Longrightarrow> merge_operator_dicts lhs rhs = merge_loop rhs lhs"
  unfolding merge_operator_dicts_def
  using merge_loop_fresh[of lhs "[]"] merge_loop_append[of lhs "[]" lhs rhs] by simp

text \<open>
  The second half of the loop, over the items of \<^verbatim>\<open>rhs\<close>: the content and the key
  order of the result.
\<close>

lemma merge_loop_content:
  "distinct (map fst ys) \<Longrightarrow> distinct (map fst acc) \<Longrightarrow> share_key_as_name acc ys \<Longrightarrow>
   \<exists>r. merge_loop ys acc = Inr r \<and> distinct (map fst r)
       \<and> (\<forall>k. dict_get r k = merged_opt (dict_get acc k) (dict_get ys k))
       \<and> map fst r = map fst acc @ filter (\<lambda>k. k \<notin> fst ` set acc) (map fst ys)"
proof (induction ys arbitrary: acc)
  case Nil
  have "merged_opt x None = x" for x by (cases x) simp_all
  then show ?case using Nil by (simp add: dict_get_def)
next
  case (Cons y ys)
  obtain nm op where y: "y = (nm, op)" by (cases y)
  from Cons.prems y have nys: "nm \<notin> fst ` set ys" and dys: "distinct (map fst ys)"
    by auto
  have ysnm: "dict_get ys nm = None" using nys by (rule dict_get_fresh)
  have ynm: "dict_get (y # ys) nm = Some op" using y by (simp add: dict_get_def)
  have yk: "dict_get (y # ys) k = dict_get ys k" if "k \<noteq> nm" for k
    using y that by (simp add: dict_get_def)
  define new_op where "new_op = (case dict_get acc nm of None \<Rightarrow> op | Some e \<Rightarrow> merged e op)"
  define acc' where "acc' = dict_set acc nm new_op"
  have step: "merge_loop (y # ys) acc = merge_loop ys acc'"
  proof (cases "dict_get acc nm")
    case None
    then show ?thesis using y by (simp add: acc'_def new_op_def)
  next
    case (Some e)
    with Cons.prems(3) ynm have "op_name e = op_name op"
      unfolding share_key_as_name_def by metis
    then show ?thesis using y Some
      by (simp add: acc'_def new_op_def combine_operators_merged)
  qed
  have acc'k: "dict_get acc' k = (if k = nm then Some new_op else dict_get acc k)" for k
    by (simp add: acc'_def dict_get_def map_of_dict_set)
  have d': "distinct (map fst acc')"
    using Cons.prems(2) by (simp add: acc'_def dict_set_distinct)
  have sh: "share_key_as_name acc' ys"
    unfolding share_key_as_name_def
  proof (intro allI impI)
    fix k a b assume h: "dict_get acc' k = Some a \<and> dict_get ys k = Some b"
    with ysnm have "k \<noteq> nm" by auto
    with h have "dict_get acc k = Some a" "dict_get (y # ys) k = Some b"
      by (simp_all add: acc'k yk)
    with Cons.prems(3) show "op_name a = k \<and> op_name b = k"
      unfolding share_key_as_name_def by blast
  qed
  from Cons.IH[OF dys d' sh] obtain r where r: "merge_loop ys acc' = Inr r"
    "distinct (map fst r)" "\<And>k. dict_get r k = merged_opt (dict_get acc' k) (dict_get ys k)"
    "map fst r = map fst acc' @ filter (\<lambda>k. k \<notin> fst ` set acc') (map fst ys)"
    by blast
  have content: "dict_get r k = merged_opt (dict_get acc k) (dict_get (y # ys) k)" for k
  proof (cases "k = nm")
    case True
    then show ?thesis using r(3)[of k] ysnm ynm
      by (cases "dict_get acc nm") (simp_all add: acc'k new_op_def)
  next
    case False
    then show ?thesis using r(3)[of k] by (simp add: acc'k yk)
  qed
  have keys': "fst ` set acc' = insert nm (fst ` set acc)"
  proof -
    have "fst ` set acc' = set (map fst acc')" by simp
    also have "\<dots> = insert nm (fst ` set acc)"
      unfolding acc'_def dict_set_keys by auto
    finally show ?thesis .
  qed
  have keys: "map fst r = map fst acc @ filter (\<lambda>k. k \<notin> fst ` set acc) (map fst (y # ys))"
  proof (cases "nm \<in> fst ` set acc")
    case True
    then have "map fst acc' = map fst acc" "fst ` set acc' = fst ` set acc"
      using keys' by (auto simp: acc'_def dict_set_keys)
    then show ?thesis using r(4) True y by simp
  next
    case False
    then have "map fst acc' = map fst acc @ [nm]"
      by (simp add: acc'_def dict_set_keys)
    moreover have "filter (\<lambda>k. k \<notin> fst ` set acc') (map fst ys)
                 = filter (\<lambda>k. k \<notin> fst ` set acc) (map fst ys)"
      using nys keys' by (intro filter_cong) auto
    ultimately show ?thesis using r(4) False y by simp
  qed
  show ?case using step r(1,2) content keys by auto
qed

lemma merge_operator_dicts_content:
  assumes "distinct (map fst X)" "distinct (map fst Y)" "share_key_as_name X Y"
  shows "\<exists>r. merge_operator_dicts X Y = Inr r \<and> distinct (map fst r)
       \<and> (\<forall>k. dict_get r k = merged_opt (dict_get X k) (dict_get Y k))
       \<and> map fst r = map fst X @ filter (\<lambda>k. k \<notin> fst ` set X) (map fst Y)"
  using merge_loop_content[OF assms(2) assms(1) assms(3)]
  by (simp add: merge_operator_dicts_loop[OF assms(1)])

text \<open>
  Claim C5: for registries \<^verbatim>\<open>A\<close>, \<^verbatim>\<open>B\<close>, \<^verbatim>\<open>C\<close> (dicts, so with distinct keys) in
  which the operators under a common key have that key as their name, merging
  \<^verbatim>\<open>A\<close> with \<^verbatim>\<open>B\<close> and then with \<^verbatim>\<open>C\<close>, and merging \<^verbatim>\<open>A\<close> with the merge of \<^verbatim>\<open>B\<close>
  and \<^verbatim>\<open>C\<close>, both succeed and give registries with the same keys and, under each key,
  the same operator; the two results are even the same dict, key order included.
\<close>

theorem merge_operator_dicts_assoc:
  assumes dA: "distinct (dict_keys A)" and dB: "distinct (dict_keys B)"
    and dC: "distinct (dict_keys C)"
    and AB: "share_key_as_name A B" and BC: "share_key_as_name B C"
    and AC: "share_key_as_name A C"
  shows "\<exists>ab bc l r.
           merge_operator_dicts A B = Inr ab \<and> merge_operator_dicts ab C = Inr l
         \<and> merge_operator_dicts B C = Inr bc \<and> merge_operator_dicts A bc = Inr r
         \<and> set (dict_keys l) = set (dict_keys r)
         \<and> (\<forall>k. dict_get l k = dict_get r k)
         \<and> l = r"
proof -
  note d = dA[unfolded dict_keys_def] dB[unfolded dict_keys_def] dC[unfolded dict_keys_def]
  from merge_operator_dicts_content[OF d(1) d(2) AB] obtain ab where
    ab: "merge_operator_dicts A B = Inr ab" "distinct (map fst ab)"
      "\<And>k. dict_get ab k = merged_opt (dict_get A k) (dict_get B k)"
      "map fst ab = map fst A @ filter (\<lambda>k. k \<notin> fst ` set A) (map fst B)"
    by blast
  from merge_operator_dicts_content[OF d(2) d(3) BC] obtain bc where
    bc: "merge_operator_dicts B C = Inr bc" "distinct (map fst bc)"
      "\<And>k. dict_get bc k = merged_opt (dict_get B k) (dict_get C k)"
      "map fst bc = map fst B @ filter (\<lambda>k. k \<notin> fst ` set B) (map fst C)"
    by blast
  have abC: "share_key_as_name ab C"
    unfolding share_key_as_name_def
  proof (intro allI impI)
    fix k x c assume h: "dict_get ab k = Some x \<and> dict_get C k = Some c"
    then have c: "dict_get C k = Some c" by simp
    from h have "merged_opt (dict_get A k) (dict_get B k) = Some x" by (simp add: ab(3))
    from merged_opt_Some_name[OF this] consider
        "dict_get A k = Some x"
      | "dict_get B k = Some x"
      | a b where "dict_get A k = Some a" "dict_get B k = Some b" "op_name x = op_name a"
      by blast
    then show "op_name x = k \<and> op_name c = k"
    proof cases
      case 1
      then show ?thesis using share_key_as_nameD[OF AC _ c] by simp
    next
      case 2
      then show ?thesis using share_key_as_nameD[OF BC _ c] by simp
    next
      case 3
      then show ?thesis
        using share_key_as_nameD[OF AC 3(1) c] by simp
    qed
  qed
  have Abc: "share_key_as_name A bc"
    unfolding share_key_as_name_def
  proof (intro allI impI)
    fix k a x assume h: "dict_get A k = Some a \<and> dict_get bc k = Some x"
    then have a: "dict_get A k = Some a" by simp
    from h have "merged_opt (dict_get B k) (dict_get C k) = Some x" by (simp add: bc(3))
    from merged_opt_Some_name[OF this] consider
        "dict_get B k = Some x"
      | "dict_get C k = Some x"
      | b c where "dict_get B k = Some b" "dict_get C k = Some c" "op_name x = op_name b"
      by blast
    then show "op_name a = k \<and> op_name x = k"
    proof cases
      case 1
      then show ?thesis using share_key_as_nameD[OF AB a] by simp
    next
      case 2
      then show ?thesis using share_key_as_nameD[OF AC a] by simp
    next
      case 3
      then show ?thesis
        using share_key_as_nameD[OF AB a 3(1)] by simp
    qed
  qed
  from merge_operator_dicts_content[OF ab(2) d(3) abC] obtain l where
    l: "merge_operator_dicts ab C = Inr l" "distinct (map fst l)"
      "\<And>k. dict_get l k = merged_opt (dict_get ab k) (dict_get C k)"
      "map fst l = map fst ab @ filter (\<lambda>k. k \<notin> fst ` set ab) (map fst C)"
    by blast
  from merge_operator_dicts_content[OF d(1) bc(2) Abc] obtain r where
    r: "merge_operator_dicts A bc = Inr r" "distinct (map fst r)"
      "\<And>k. dict_get r k = merged_opt (dict_get A k) (dict_get bc k)"
      "map fst r = map fst A @ filter (\<lambda>k. k \<notin> fst ` set A) (map fst bc)"
    by blast
  have content: "dict_get l k = dict_get r k" for k
    by (simp add: l(3) r(3) ab(3) bc(3) merged_opt_assoc)
  have sab: "fst ` set ab = fst ` set A \<union> fst ` set B"
  proof -
    have "fst ` set ab = set (map fst ab)" by simp
    also have "\<dots> = fst ` set A \<union> fst ` set B" unfolding ab(4) by auto
    finally show ?thesis .
  qed
  have "filter (\<lambda>k. k \<notin> fst ` set ab) (map fst C)
        = filter (\<lambda>k. k \<notin> fst ` set A) (filter (\<lambda>k. k \<notin> fst ` set B) (map fst C))"
    unfolding sab by (auto intro: filter_cong)
  then have keys: "map fst l = map fst r"
    by (simp add: l(4) r(4) ab(4) bc(4))
  have eq: "l = r" using keys l(2) content by (rule pydict_eqI)
  show ?thesis using ab(1) bc(1) l(1) r(1) eq by simp
qed

theorem merge_operator_dicts_assoc_witness:
  "distinct (dict_keys [(''x'', \<lparr>op_name = ''x'', is_root_operator = False,
        is_used_for_training = False, include_all_overloads = False,
        models = Some [\<lparr>name = ''a'', version = Some ''b''\<rparr>]\<rparr>)])
   \<and> distinct (dict_keys [(''y'', \<lparr>op_name = ''y'', is_root_operator = False,
        is_used_for_training = True, include_all_overloads = False, models = None\<rparr>),
       (''x'', \<lparr>op_name = ''x'', is_root_operator = True,
        is_used_for_training = False, include_all_overloads = False,
        models = Some [\<lparr>name = ''a@b'', version = None\<rparr>]\<rparr>)])
   \<and> distinct (dict_keys [(''x'', \<lparr>op_name = ''x'', is_root_operator = False,
        is_used_for_training = False, include_all_overloads = False,
        models = Some [\<lparr>name = ''c'', version = None\<rparr>]\<rparr>)])
   \<and> share_key_as_name
        [(''x'', \<lparr>op_name = ''x'', is_root_operator = False,
          is_used_for_training = False, include_all_overloads = False,
          models = Some [\<lparr>name = ''a'', version = Some ''b''\<rparr>]\<rparr>)]
        [(''y'', \<lparr>op_name = ''y'', is_root_operator = False,
          is_used_for_training = True, include_all_overloads = False, models = None\<rparr>),
         (''x'', \<lparr>op_name = ''x'', is_root_operator = True,
          is_used_for_training = False, include_all_overloads = False,
          models = Some [\<lparr>name = ''a@b'', version = None\<rparr>]\<rparr>)]
   \<and> share_key_as_name
        [(''y'', \<lparr>op_name = ''y'', is_root_operator = False,
          is_used_for_training = True, include_all_overloads = False, models = None\<rparr>),
         (''x'', \<lparr>op_name = ''x'', is_root_operator = True,
          is_used_for_training = False, include_all_overloads = False,
          models = Some [\<lparr>name = ''a@b'', version = None\<rparr>]\<rparr>)]
        [(''x'', \<lparr>op_name = ''x'', is_root_operator = False,
          is_used_for_training = False, include_all_overloads = False,
          models = Some [\<lparr>name = ''c'', version = None\<rparr>]\<rparr>)]
   \<and> share_key_as_name
        [(''x'', \<lparr>op_name = ''x'', is_root_operator = False,
          is_used_for_training = False, include_all_overloads = False,
          models = Some [\<lparr>name = ''a'', version = Some ''b''\<rparr>]\<rparr>)]
        [(''x'', \<lparr>op_name = ''x'', is_root_operator = False,
          is_used_for_training = False, include_all_overloads = False,
          models = Some [\<lparr>name = ''c'', version = None\<rparr>]\<rparr>)]
   \<and> (\<exists>ab bc l.
        merge_operator_dicts
          [(''x'', \<lparr>op_name = ''x'', is_root_operator = False,
            is_used_for_training = False, include_all_overloads = False,
            models = Some [\<lparr>name = ''a'', version = Some ''b''\<rparr>]\<rparr>)]
          [(''y'', \<lparr>op_name = ''y'', is_root_operator = False,
            is_used_for_training = True, include_all_overloads = False, models = None\<rparr>),
           (''x'', \<lparr>op_name = ''x'', is_root_operator = True,
            is_used_for_training = False, include_all_overloads = False,
            models = Some [\<lparr>name = ''a@b'', version = None\<rparr>]\<rparr>)] = Inr ab
      \<and> merge_operator_dicts ab
          [(''x'', \<lparr>op_name = ''x'', is_root_operator = False,
            is_used_for_training = False, include_all_overloads = False,
            models = Some [\<lparr>name = ''c'', version = None\<rparr>]\<rparr>)] = Inr l
      \<and> merge_operator_dicts
          [(''y'', \<lparr>op_name = ''y'', is_root_operator = False,
            is_used_for_training = True, include_all_overloads = False, models = None\<rparr>),
           (''x'', \<lparr>op_name = ''x'', is_root_operator = True,
            is_used_for_training = False, include_all_overloads = False,
            models = Some [\<lparr>name = ''a@b'', version = None\<rparr>]\<rparr>)]
          [(''x'', \<lparr>op_name = ''x'', is_root_operator = False,
            is_used_for_training = False, include_all_overloads = False,
            models = Some [\<lparr>name = ''c'', version = None\<rparr>]\<rparr>)] = Inr bc
      \<and> merge_operator_dicts
          [(''x'', \<lparr>op_name = ''x'', is_root_operator = False,
            is_used_for_training = False, include_all_overloads = False,
            models = Some [\<lparr>name = ''a'', version = Some ''b''\<rparr>]\<rparr>)] bc = Inr l
      \<and> l = [(''x'', \<lparr>op_name = ''x'', is_root_operator = True,
            is_used_for_training = False, include_all_overloads = False,
            models = Some [\<lparr>name = ''a@b'', version = None\<rparr>, \<lparr>name = ''c'', version = None\<rparr>]\<rparr>),
           (''y'', \<lparr>op_name = ''y'', is_root_operator = False,
            is_used_for_training = True, include_all_overloads = False, models = None\<rparr>)])"
proof -
  let ?A = "[(''x'', \<lparr>op_name = ''x'', is_root_operator = False,
        is_used_for_training = False, include_all_overloads = False,
        models = Some [\<lparr>name = ''a'', version = Some ''b''\<rparr>]\<rparr>)]"
  let ?B = "[(''y'', \<lparr>op_name = ''y'', is_root_operator = False,
        is_used_for_training = True, include_all_overloads = False, models = None\<rparr>),
       (''x'', \<lparr>op_name = ''x'', is_root_operator = True,
        is_used_for_training = False, include_all_overloads = False,
        models = Some [\<lparr>name = ''a@b'', version = None\<rparr>]\<rparr>)]"
  let ?C = "[(''x'', \<lparr>op_name = ''x'', is_root_operator = False,
        is_used_for_training = False, include_all_overloads = False,
        models = Some [\<lparr>name = ''c'', version = None\<rparr>]\<rparr>)]"
  have d: "distinct (dict_keys ?A)" "distinct (dict_keys ?B)" "distinct (dict_keys ?C)"
    by (simp_all add: dict_keys_def)
  have s: "share_key_as_name ?A ?B" "share_key_as_name ?B ?C" "share_key_as_name ?A ?C"
    by (auto simp: share_key_as_name_def dict_get_def split: if_splits)
  have ab: "merge_operator_dicts ?A ?B
      = Inr [(''x'', \<lparr>op_name = ''x'', is_root_operator = True,
            is_used_for_training = False, include_all_overloads = False,
            models = Some [\<lparr>name = ''a@b'', version = None\<rparr>]\<rparr>),
           (''y'', \<lparr>op_name = ''y'', is_root_operator = False,
            is_used_for_training = True, include_all_overloads = False, models = None\<rparr>)]"
    by (simp add: merge_operator_dicts_def dict_get_def combine_operators_def
          merge_model_lists_def str_def dict_values_def)
  have l: "merge_operator_dicts
        [(''x'', \<lparr>op_name = ''x'', is_root_operator = True,
            is_used_for_training = False, include_all_overloads = False,
            models = Some [\<lparr>name = ''a@b'', version = None\<rparr>]\<rparr>),
           (''y'', \<lparr>op_name = ''y'', is_root_operator = False,
            is_used_for_training = True, include_all_overloads = False, models = None\<rparr>)] ?C
      = Inr [(''x'', \<lparr>op_name = ''x'', is_root_operator = True,
            is_used_for_training = False, include_all_overloads = False,
            models = Some [\<lparr>name = ''a@b'', version = None\<rparr>, \<lparr>name = ''c'', version = None\<rparr>]\<rparr>),
           (''y'', \<lparr>op_name = ''y'', is_root_operator = False,
            is_used_for_training = True, include_all_overloads = False, models = None\<rparr>)]"
    by (simp add: merge_operator_dicts_def dict_get_def combine_operators_def
          merge_model_lists_def str_def dict_values_def)
  from merge_operator_dicts_assoc[OF d s] obtain ab' bc' l' r' where
    h: "merge_operator_dicts ?A ?B = Inr ab'" "merge_operator_dicts ab' ?C = Inr l'"
       "merge_operator_dicts ?B ?C = Inr bc'" "merge_operator_dicts ?A bc' = Inr r'" "l' = r'"
    by blast
  from h(1) ab have "ab' = [(''x'', \<lparr>op_name = ''x'', is_root_operator = True,
            is_used_for_training = False, include_all_overloads = False,
            models = Some [\<lparr>name = ''a@b'', version = None\<rparr>]\<rparr>),
           (''y'', \<lparr>op_name = ''y'', is_root_operator = False,
            is_used_for_training = True, include_all_overloads = False, models = None\<rparr>)]"
    by simp
  with h(2) l have "l' = [(''x'', \<lparr>op_name = ''x'', is_root_operator = True,
            is_used_for_training = False, include_all_overloads = False,
            models = Some [\<lparr>name = ''a@b'', version = None\<rparr>, \<lparr>name = ''c'', version = None\<rparr>]\<rparr>),
           (''y'', \<lparr>op_name = ''y'', is_root_operator = False,
            is_used_for_training = True, include_all_overloads = False, models = None\<rparr>)]"
    by simp
  with h d s show ?thesis by blast
qed

text \<open>
  Claim C6: merging a registry (a dict, so with distinct keys) with the empty registry
  gives the registry back.
\<close>

theorem merge_operator_dicts_empty:
  assumes "distinct (dict_keys R)"
  shows "merge_operator_dicts R [] = Inr R"
  using assms merge_loop_fresh[of R "[]"]
  by (simp add: merge_operator_dicts_def dict_keys_def)

theorem merge_operator_dicts_empty_witness:
  "distinct (dict_keys
      [(''aten::add'', \<lparr>op_name = ''aten::add'', is_root_operator = True,
          is_used_for_training = False, include_all_overloads = False,
          models = Some [\<lparr>name = ''m'', version = None\<rparr>, \<lparr>name = ''m'', version = None\<rparr>]\<rparr>),
       (''aten::mul.out'', \<lparr>op_name = ''other'', is_root_operator = False,
          is_used_for_training = False, include_all_overloads = True, models = Some []\<rparr>)])
   \<and> merge_operator_dicts
      [(''aten::add'', \<lparr>op_name = ''aten::add'', is_root_operator = True,
          is_used_for_training = False, include_all_overloads = False,
          models = Some [\<lparr>name = ''m'', version = None\<rparr>, \<lparr>name = ''m'', version = None\<rparr>]\<rparr>),
       (''aten::mul.out'', \<lparr>op_name = ''other'', is_root_operator = False,
          is_used_for_training = False, include_all_overloads = True, models = Some []\<rparr>)] []
     = Inr
      [(''aten::add'', \<lparr>op_name = ''aten::add'', is_root_operator = True,
          is_used_for_training = False, include_all_overloads = False,
          models = Some [\<lparr>name = ''m'', version = None\<rparr>, \<lparr>name = ''m'', version = None\<rparr>]\<rparr>),
       (''aten::mul.out'', \<lparr>op_name = ''other'', is_root_operator = False,
          is_used_for_training = False, include_all_overloads = True, models = Some []\<rparr>)]"
  using merge_operator_dicts_empty
    [of "[(''aten::add'', \<lparr>op_name = ''aten::add'', is_root_operator = True,
          is_used_for_training = False, include_all_overloads = False,
          models = Some [\<lparr>name = ''m'', version = None\<rparr>, \<lparr>name = ''m'', version = None\<rparr>]\<rparr>),
       (''aten::mul.out'', \<lparr>op_name = ''other'', is_root_operator = False,
          is_used_for_training = False, include_all_overloads = True, models = Some []\<rparr>)]"]
  by (simp add: dict_keys_def)

text \<open>
  Claim C10: if in both registries every key maps to an operator whose name is that
  key, then \<^verbatim>\<open>merge_operator_dicts\<close> does not raise and every key of the result maps
  to an operator whose name is that key.
\<close>

theorem merge_operator_dicts_key_named:
  assumes "key_named lhs" "key_named rhs"
  shows "\<exists>r. merge_operator_dicts lhs rhs = Inr r \<and> key_named r"
  unfolding merge_operator_dicts_def
  using assms by (intro merge_loop_key_named) (auto simp: key_named_def)

theorem merge_operator_dicts_key_named_witness:
  "key_named [(''x'', \<lparr>op_name = ''x'', is_root_operator = False, is_used_for_training = False,
                 include_all_overloads = False, models = None\<rparr>)]
   \<and> key_named [(''x'', \<lparr>op_name = ''x'', is_root_operator = True, is_used_for_training = False,
                 include_all_overloads = False, models = Some [\<lparr>name = ''m'', version = None\<rparr>]\<rparr>),
                (''y'', \<lparr>op_name = ''y'', is_root_operator = False, is_used_for_training = True,
                 include_all_overloads = False, models = None\<rparr>)]
   \<and> merge_operator_dicts
        [(''x'', \<lparr>op_name = ''x'', is_root_operator = False, is_used_for_training = False,
                 include_all_overloads = False, models = None\<rparr>)]
        [(''x'', \<lparr>op_name = ''x'', is_root_operator = True, is_used_for_training = False,
                 include_all_overloads = False, models = Some [\<lparr>name = ''m'', version = None\<rparr>]\<rparr>),
         (''y'', \<lparr>op_name = ''y'', is_root_operator = False, is_used_for_training = True,
                 include_all_overloads = False, models = None\<rparr>)]
     = Inr [(''x'', \<lparr>op_name = ''x'', is_root_operator = True, is_used_for_training = False,
                 include_all_overloads = False, models = Some [\<lparr>name = ''m'', version = None\<rparr>]\<rparr>),
            (''y'', \<lparr>op_name = ''y'', is_root_operator = False, is_used_for_training = True,
                 include_all_overloads = False, models = None\<rparr>)]
   \<and> key_named [(''x'', \<lparr>op_name = ''x'', is_root_operator = True, is_used_for_training = False,
                 include_all_overloads = False, models = Some [\<lparr>name = ''m'', version = None\<rparr>]\<rparr>),
            (''y'', \<lparr>op_name = ''y'', is_root_operator = False, is_used_for_training = True,
                 include_all_overloads = False, models = None\<rparr>)]"
proof -
  let ?l = "[(''x'', \<lparr>op_name = ''x'', is_root_operator = False, is_used_for_training = False,
                 include_all_overloads = False, models = None\<rparr>)]"
  let ?r = "[(''x'', \<lparr>op_name = ''x'', is_root_operator = True, is_used_for_training = False,
                 include_all_overloads = False, models = Some [\<lparr>name = ''m'', version = None\<rparr>]\<rparr>),
            (''y'', \<lparr>op_name = ''y'', is_root_operator = False, is_used_for_training = True,
                 include_all_overloads = False, models = None\<rparr>)]"
  have l: "key_named ?l" by (simp add: key_named_def)
  have r: "key_named ?r" by (simp add: key_named_def)
  have m: "merge_operator_dicts ?l ?r = Inr ?r"
    by (simp add: merge_operator_dicts_def dict_get_def combine_operators_def
          merge_model_lists_def str_def dict_values_def)
  show ?thesis using merge_operator_dicts_key_named[OF l r] l r m by simp
qed

end
